theory Spec2Isabelle
  imports Main
begin

section \<open>JavaScript values\<close>

text \<open>
  The values the two modules compare and test for truthiness: \<open>undefined\<close>, \<open>null\<close>,
  booleans, strings and object references (an object is identified by a number).
  \<open>===\<close> on these values is equality of the datatype.
\<close>

datatype jsval = JUndefined | JNull | JBool bool | JStr string | JObj nat

fun truthy :: "jsval \<Rightarrow> bool" where
  "truthy JUndefined = False"
| "truthy JNull = False"
| "truthy (JBool b) = b"
| "truthy (JStr s) = (s \<noteq> [])"
| "truthy (JObj n) = True"

section \<open>RoomInvite.js: reporting invite failures\<close>

text \<open>
  \<open>addrs\<close> is the object that maps each address to its state; it is an association list
  in the order of \<open>Object.keys\<close>, and \<open>addrs[a]\<close> is \<open>map_of addrs a\<close>. The inviter is the
  MultiInviter that produced it: its \<open>fatal\<close> flag and its \<open>getErrorText\<close>. Of a Room
  object only the name is read.
\<close>

type_synonym addr_states = "(string \<times> string) list"

record inviter =
  fatal :: bool
  getErrorText :: "string \<Rightarrow> string"

record room =
  name :: string

text \<open>One call of \<open>Modal.createTrackedDialog\<close> with the ErrorDialog component.\<close>

record dialog =
  analyticsAction :: string
  analyticsInfo :: string
  component :: string
  title :: string
  description :: string

text \<open>\<open>Object.keys(addrs).filter(a => addrs[a] === "error")\<close>\<close>

definition failedUsers :: "addr_states \<Rightarrow> string list" where
  "failedUsers addrs = filter (\<lambda>a. map_of addrs a = Some ''error'') (map fst addrs)"

text \<open>
  The loop of the second branch: it checks the state of each failed address again and
  pushes \<open>addr + ": " + reason\<close>.
\<close>

fun errorList_loop :: "inviter \<Rightarrow> addr_states \<Rightarrow> string list \<Rightarrow> string list \<Rightarrow> string list" where
  "errorList_loop mi addrs [] errorList = errorList"
| "errorList_loop mi addrs (addr # rest) errorList =
     (if map_of addrs addr = Some ''error''
      then errorList_loop mi addrs rest (errorList @ [addr @ '': '' @ getErrorText mi addr])
      else errorList_loop mi addrs rest errorList)"

text \<open>\<open>Array.prototype.join\<close> with a separator that is already a string.\<close>

fun join :: "string \<Rightarrow> string list \<Rightarrow> string" where
  "join sep [] = []"
| "join sep [x] = x"
| "join sep (x # y # ys) = x @ sep @ join sep (y # ys)"

text \<open>
  The separator handed to \<open>join\<close> is the React element \<open><br />\<close>; \<open>join\<close> converts its
  separator to a string, and an element is a plain object.
\<close>

definition br_separator :: string where
  "br_separator = ''[object Object]''"

text \<open>
  \<open>_showAnyInviteErrors(addrs, room, inviter)\<close>. The translation function \<open>_t\<close> of the
  language handler is a parameter. \<open>room\<close> is what \<open>getRoom(roomId)\<close> gave the caller: a
  Room object, or \<open>null\<close> (\<open>None\<close>) for a room the client does not know. The arguments of
  \<open>createTrackedDialog\<close> are evaluated before the call, and the title reads \<open>room.name\<close>:
  with \<open>room\<close> \<open>null\<close> that raises a TypeError, before any dialog is created and before
  \<open>return addrs\<close>. The result is the error raised, or the list of dialogs created and
  the value returned.
\<close>

datatype error = TypeError

definition showAnyInviteErrors ::
  "(string \<Rightarrow> (string \<times> string) list \<Rightarrow> string) \<Rightarrow> addr_states \<Rightarrow> room option \<Rightarrow> inviter
     \<Rightarrow> error + dialog list \<times> addr_states" where
  "showAnyInviteErrors t addrs room mi =
     (let failed = failedUsers addrs in
      if length failed = 1 \<and> fatal mi then
        (case room of
           None \<Rightarrow> Inl TypeError
         | Some r \<Rightarrow>
             Inr ([\<lparr>analyticsAction = ''Failed to invite users to the room'',
                    analyticsInfo = [],
                    component = ''dialogs.ErrorDialog'',
                    title = t ''Failed to invite users to the room:'' [(''roomName'', name r)],
                    description = getErrorText mi (failed ! 0)\<rparr>], addrs))
      else
        (let errorList = errorList_loop mi addrs failed [] in
         if length errorList > 0 then
           (case room of
              None \<Rightarrow> Inl TypeError
            | Some r \<Rightarrow>
                Inr ([\<lparr>analyticsAction = ''Failed to invite the following users to the room'',
                       analyticsInfo = [],
                       component = ''dialogs.ErrorDialog'',
                       title = t ''Failed to invite the following users to the %(roomName)s room:''
                                 [(''roomName'', name r)],
                       description = join br_separator errorList\<rparr>], addrs))
         else Inr ([], addrs)))"

text \<open>The words of the specification: one line per failed address, paired with its text.\<close>

definition failure_lines :: "inviter \<Rightarrow> addr_states \<Rightarrow> string list" where
  "failure_lines mi addrs =
     map (\<lambda>(a, s). a @ '': '' @ getErrorText mi a) (filter (\<lambda>(a, s). s = ''error'') addrs)"

section \<open>OpenRoomsStore: the room view router\<close>

subsection \<open>Payloads, collaborators and state\<close>

text \<open>
  An action payload is an object literal: an association list from property names to
  values. Reading a property that is absent gives \<open>undefined\<close>.
\<close>

type_synonym payload = "(string \<times> jsval) list"

definition field :: "payload \<Rightarrow> string \<Rightarrow> jsval" where
  "field p k = (case map_of p k of None \<Rightarrow> JUndefined | Some v \<Rightarrow> v)"

text \<open>
  RoomViewStore is imported, not defined here, so its behaviour is a parameter: the state
  of a store just constructed, what the store does with an action dispatched on the
  dispatcher it is registered with, and its two getters. \<open>'s\<close> is the type of the
  contents of a store.
\<close>

record 's collaborators =
  newRoomViewStore :: 's
  onStoreDispatch :: "payload \<Rightarrow> 's \<Rightarrow> 's"
  getRoomId :: "'s \<Rightarrow> jsval"
  getRoomAlias :: "'s \<Rightarrow> jsval"

text \<open>
  A Room View Entry \<open>{store, dispatcher}\<close>. The dispatcher is the identity of the
  MatrixDispatcher object (its number in order of creation); \<open>store\<close> is the contents of
  the RoomViewStore registered with it.
\<close>

record 's entry =
  store :: 's
  dispatcher :: nat

text \<open>
  What the router does to the outside, in order: \<open>__emitChange()\<close>, unregistering the
  store of an entry from its dispatcher, a synchronous dispatch on the dispatcher of an
  entry, a dispatch on the shared dispatcher \<open>dis\<close>, and the start of an alias lookup.
\<close>

datatype effect =
  EmitChange
| Unregister nat
| Dispatch nat payload
| GlobalDispatch payload
| GetRoomIdForAlias jsval

text \<open>
  The store object: \<open>_state\<close> (\<open>rooms\<close>, \<open>currentIndex\<close>, \<open>group_id\<close>), \<open>_forwardingEvent\<close>,
  the number of dispatchers created so far, and the effects so far. \<open>currentIndex\<close> is
  \<open>None\<close> for \<open>null\<close> and a JavaScript number otherwise.
\<close>

record 's open_rooms =
  rooms :: "'s entry list"
  currentIndex :: "int option"
  group_id :: jsval
  forwardingEvent :: jsval
  dispatchers :: nat
  effects :: "effect list"

definition initialState :: "'s open_rooms" where
  "initialState = \<lparr>rooms = [], currentIndex = None, group_id = JNull,
     forwardingEvent = JNull, dispatchers = 0, effects = []\<rparr>"

subsection \<open>Arrays\<close>

text \<open>\<open>xs[i]\<close>: \<open>undefined\<close> outside of the array.\<close>

definition item :: "'a list \<Rightarrow> int \<Rightarrow> 'a option" where
  "item xs i = (if 0 \<le> i \<and> i < int (length xs) then Some (xs ! nat i) else None)"

text \<open>\<open>xs.findIndex(P)\<close>: the first index whose element satisfies \<open>P\<close>, or \<open>-1\<close>.\<close>

fun findIndex_from :: "('a \<Rightarrow> bool) \<Rightarrow> int \<Rightarrow> 'a list \<Rightarrow> int" where
  "findIndex_from P k [] = - 1"
| "findIndex_from P k (x # xs) = (if P x then k else findIndex_from P (k + 1) xs)"

definition findIndex :: "('a \<Rightarrow> bool) \<Rightarrow> 'a list \<Rightarrow> int" where
  "findIndex P xs = findIndex_from P 0 xs"

subsection \<open>The methods\<close>

definition matchesRoom :: "'s collaborators \<Rightarrow> payload \<Rightarrow> 's option \<Rightarrow> bool" where
  "matchesRoom ops p roomStore =
     (case roomStore of
        None \<Rightarrow> False
      | Some s \<Rightarrow>
          if truthy (field p ''room_alias'') then field p ''room_alias'' = getRoomAlias ops s
          else field p ''room_id'' = getRoomId ops s)"

definition getRoomStores :: "'s open_rooms \<Rightarrow> 's list" where
  "getRoomStores st = map store (rooms st)"

definition getCurrentRoom :: "'s open_rooms \<Rightarrow> 's entry option" where
  "getCurrentRoom st =
     (case currentIndex st of
        None \<Rightarrow> None
      | Some index \<Rightarrow> if index < int (length (rooms st)) then item (rooms st) index else None)"

definition getCurrentRoomStore :: "'s open_rooms \<Rightarrow> 's option" where
  "getCurrentRoomStore st =
     (case getCurrentRoom st of None \<Rightarrow> None | Some currentRoom \<Rightarrow> Some (store currentRoom))"

text \<open>\<open>_setState(newState)\<close> is the record update followed by \<open>emitChange\<close>.\<close>

definition emitChange :: "'s open_rooms \<Rightarrow> 's open_rooms" where
  "emitChange st = st\<lparr>effects := effects st @ [EmitChange]\<rparr>"

definition roomIndex :: "'s collaborators \<Rightarrow> 's open_rooms \<Rightarrow> payload \<Rightarrow> int" where
  "roomIndex ops st p = findIndex (\<lambda>r. matchesRoom ops p (Some (store r))) (rooms st)"

definition hasRoom :: "'s collaborators \<Rightarrow> 's open_rooms \<Rightarrow> payload \<Rightarrow> bool" where
  "hasRoom ops st p = (roomIndex ops st p \<noteq> - 1)"

definition cleanupRooms :: "'s open_rooms \<Rightarrow> 's open_rooms" where
  "cleanupRooms st =
     emitChange (st\<lparr>effects := effects st @ map (\<lambda>r. Unregister (dispatcher r)) (rooms st),
                    rooms := [], group_id := JNull, currentIndex := None\<rparr>)"

definition createRoom :: "'s collaborators \<Rightarrow> 's open_rooms \<Rightarrow> 's open_rooms" where
  "createRoom ops st =
     emitChange (st\<lparr>dispatchers := dispatchers st + 1,
                    rooms := [\<lparr>store = newRoomViewStore ops, dispatcher = dispatchers st\<rparr>],
                    currentIndex := Some 0\<rparr>)"

text \<open>
  \<open>currentRoom.dispatcher.dispatch(payload, true)\<close> reaches the store of the current
  entry, which lives in \<open>rooms\<close> at \<open>currentIndex\<close>.
\<close>

definition forwardAction :: "'s collaborators \<Rightarrow> 's open_rooms \<Rightarrow> payload \<Rightarrow> 's open_rooms" where
  "forwardAction ops st p =
     (case (currentIndex st, getCurrentRoom st) of
        (Some index, Some currentRoom) \<Rightarrow>
          st\<lparr>rooms := (rooms st)[nat index :=
                  currentRoom\<lparr>store := onStoreDispatch ops p (store currentRoom)\<rparr>],
             effects := effects st @ [Dispatch (dispatcher currentRoom) p]\<rparr>
      | _ \<Rightarrow> st)"

text \<open>
  \<open>_resolveRoomAlias\<close> is asynchronous. Its synchronous part starts the lookup; later
  either the lookup resolves with a room id and \<open>view_room\<close> is dispatched on \<open>dis\<close>, or
  it is rejected and the catch block runs.
\<close>

definition resolveRoomAlias :: "'s open_rooms \<Rightarrow> payload \<Rightarrow> 's open_rooms" where
  "resolveRoomAlias st p = st\<lparr>effects := effects st @ [GetRoomIdForAlias (field p ''room_alias'')]\<rparr>"

definition resolveRoomAlias_resolved :: "'s open_rooms \<Rightarrow> payload \<Rightarrow> jsval \<Rightarrow> 's open_rooms" where
  "resolveRoomAlias_resolved st p result_room_id =
     st\<lparr>effects := effects st @ [GlobalDispatch
        [(''action'', JStr ''view_room''),
         (''room_id'', result_room_id),
         (''event_id'', field p ''event_id''),
         (''highlighted'', field p ''highlighted''),
         (''room_alias'', field p ''room_alias''),
         (''auto_join'', field p ''auto_join''),
         (''oob_data'', field p ''oob_data'')]]\<rparr>"

definition resolveRoomAlias_rejected ::
  "'s collaborators \<Rightarrow> 's open_rooms \<Rightarrow> payload \<Rightarrow> jsval \<Rightarrow> 's open_rooms" where
  "resolveRoomAlias_rejected ops st p err =
     forwardAction ops st
       [(''action'', JStr ''view_room_error''),
        (''room_id'', JNull),
        (''room_alias'', field p ''room_alias''),
        (''err'', err)]"

definition setCurrentGroupRoom :: "'s open_rooms \<Rightarrow> int \<Rightarrow> 's open_rooms" where
  "setCurrentGroupRoom st index = emitChange (st\<lparr>currentIndex := Some index\<rparr>)"

text \<open>
  The \<open>rooms.map\<close> of \<open>view_group_grid\<close>, over the room ids of the rooms of the group:
  each room gets a new dispatcher (numbered from \<open>d\<close>) and a new store, and \<open>view_room\<close>
  with the room id is dispatched on that dispatcher. The result is the entries and the
  dispatches made.
\<close>

definition view_room_of :: "jsval \<Rightarrow> payload" where
  "view_room_of roomId = [(''action'', JStr ''view_room''), (''room_id'', roomId)]"

fun roomStores_of :: "'s collaborators \<Rightarrow> nat \<Rightarrow> jsval list \<Rightarrow> 's entry list \<times> effect list" where
  "roomStores_of ops d [] = ([], [])"
| "roomStores_of ops d (roomId # rest) =
     (let (es, fx) = roomStores_of ops (d + 1) rest in
      (\<lparr>store = onStoreDispatch ops (view_room_of roomId) (newRoomViewStore ops),
        dispatcher = d\<rparr> # es,
       Dispatch d (view_room_of roomId) # fx))"

definition view_room :: "'s collaborators \<Rightarrow> 's open_rooms \<Rightarrow> payload \<Rightarrow> 's open_rooms" where
  "view_room ops st p =
     (let st1 = (if \<not> truthy (field p ''room_id'') \<and> truthy (field p ''room_alias'')
                 then resolveRoomAlias st p else st);
          currentStore = getCurrentRoomStore st1;
          st2 = (if matchesRoom ops p currentStore then
                   (if hasRoom ops st1 p
                    then emitChange (st1\<lparr>currentIndex := Some (roomIndex ops st1 p)\<rparr>)
                    else cleanupRooms st1)
                 else st1);
          st3 = (if getCurrentRoomStore st2 = None then createRoom ops st2 else st2);
          st4 = forwardAction ops st3 p
      in if truthy (forwardingEvent st4) then
           st4\<lparr>effects := effects st4 @ [GlobalDispatch
                  [(''action'', JStr ''send_event''),
                   (''room_id'', field p ''room_id''),
                   (''event'', forwardingEvent st4)]],
               forwardingEvent := JNull\<rparr>
         else st4)"

definition view_group_grid ::
  "'s collaborators \<Rightarrow> (jsval \<Rightarrow> jsval list) \<Rightarrow> 's open_rooms \<Rightarrow> payload \<Rightarrow> 's open_rooms" where
  "view_group_grid ops getGroupRooms st p =
     (if field p ''group_id'' \<noteq> group_id st then
        (let st1 = cleanupRooms st;
             groupRooms = getGroupRooms (field p ''group_id'');
             (roomStores, fx) = roomStores_of ops (dispatchers st1) groupRooms;
             st2 = emitChange (st1\<lparr>dispatchers := dispatchers st1 + length groupRooms,
                                    effects := effects st1 @ fx,
                                    rooms := roomStores,
                                    group_id := field p ''group_id''\<rparr>)
         in setCurrentGroupRoom st2 0)
      else st)"

text \<open>
  \<open>__onDispatch(payload)\<close>. \<open>getGroupRooms\<close> is \<open>GroupStore.getGroupRooms\<close> at the time of
  the dispatch: the room ids of the rooms of a group, in order.
\<close>

definition forwarded_actions :: "string list" where
  "forwarded_actions = [''will_join'', ''cancel_join'', ''join_room'', ''join_room_error'',
     ''on_logged_out'', ''reply_to_event'', ''open_room_settings'', ''close_settings'']"

definition onDispatch ::
  "'s collaborators \<Rightarrow> (jsval \<Rightarrow> jsval list) \<Rightarrow> 's open_rooms \<Rightarrow> payload \<Rightarrow> 's open_rooms" where
  "onDispatch ops getGroupRooms st p =
     (if field p ''action'' = JStr ''view_room'' then view_room ops st p
      else if field p ''action'' = JStr ''view_my_groups'' \<or> field p ''action'' = JStr ''view_group''
        then cleanupRooms (forwardAction ops st p)
      else if field p ''action'' \<in> set (map JStr forwarded_actions) then forwardAction ops st p
      else if field p ''action'' = JStr ''forward_event''
        then st\<lparr>forwardingEvent := field p ''event''\<rparr>
      else if field p ''action'' = JStr ''view_group_grid''
        then view_group_grid ops getGroupRooms st p
      else st)"

subsection \<open>Runs\<close>

text \<open>
  What happens to the store over time: an action arrives on \<open>dis\<close> (with the contents of
  the GroupStore at that time), or an alias lookup started earlier resolves or is
  rejected.
\<close>

datatype event =
  Dispatched "jsval \<Rightarrow> jsval list" payload
| AliasResolved payload jsval
| AliasRejected payload jsval

fun handle :: "'s collaborators \<Rightarrow> 's open_rooms \<Rightarrow> event \<Rightarrow> 's open_rooms" where
  "handle ops st (Dispatched getGroupRooms p) = onDispatch ops getGroupRooms st p"
| "handle ops st (AliasResolved p result_room_id) = resolveRoomAlias_resolved st p result_room_id"
| "handle ops st (AliasRejected p err) = resolveRoomAlias_rejected ops st p err"

definition run :: "'s collaborators \<Rightarrow> 's open_rooms \<Rightarrow> event list \<Rightarrow> 's open_rooms" where
  "run ops st evs = foldl (handle ops) st evs"

subsection \<open>The invariants of the specification\<close>

text \<open>\<open>currentIndex\<close>, if present, is a valid index into \<open>rooms\<close>.\<close>

definition index_valid :: "'s open_rooms \<Rightarrow> bool" where
  "index_valid st =
     (case currentIndex st of None \<Rightarrow> True | Some i \<Rightarrow> 0 \<le> i \<and> i < int (length (rooms st)))"

text \<open>
  What holds of \<open>currentIndex\<close> in the code: it is a valid index, or it is 0 and \<open>rooms\<close>
  is empty.
\<close>

definition index_valid_or_empty :: "'s open_rooms \<Rightarrow> bool" where
  "index_valid_or_empty st =
     (case currentIndex st of
        None \<Rightarrow> True
      | Some i \<Rightarrow> (0 \<le> i \<and> i < int (length (rooms st))) \<or> (i = 0 \<and> rooms st = []))"

text \<open>\<open>group_id\<close> is \<open>null\<close> whenever a single room or no room is open.\<close>

definition group_id_only_for_grid :: "'s open_rooms \<Rightarrow> bool" where
  "group_id_only_for_grid st = (if length (rooms st) \<le> 1 then group_id st = JNull else True)"

text \<open>
  What holds of \<open>group_id\<close> in the code: while \<open>currentIndex\<close> is \<open>null\<close>, \<open>rooms\<close> is empty
  and \<open>group_id\<close> is \<open>null\<close>.
\<close>

definition closed_when_no_index :: "'s open_rooms \<Rightarrow> bool" where
  "closed_when_no_index st =
     (case currentIndex st of None \<Rightarrow> rooms st = [] \<and> group_id st = JNull | Some i \<Rightarrow> True)"

text \<open>The invariant that the proofs carry through every step.\<close>

definition router_inv :: "'s open_rooms \<Rightarrow> bool" where
  "router_inv st = (index_valid_or_empty st \<and> closed_when_no_index st)"

subsection \<open>A store and a group for the concrete runs\<close>

text \<open>
  Modelled from the spec: RoomViewStore is not among the sources. This store keeps the
  room id and the room alias of the last \<open>view_room\<close> dispatched to it, so that it
  reflects the room it was loaded with, and ignores every other action.
\<close>

record room_view =
  roomId :: jsval
  roomAlias :: jsval

definition demo_onStoreDispatch :: "payload \<Rightarrow> room_view \<Rightarrow> room_view" where
  "demo_onStoreDispatch p s =
     (if field p ''action'' = JStr ''view_room''
      then \<lparr>roomId = field p ''room_id'', roomAlias = field p ''room_alias''\<rparr>
      else s)"

definition demo_stores :: "room_view collaborators" where
  "demo_stores = \<lparr>newRoomViewStore = \<lparr>roomId = JNull, roomAlias = JNull\<rparr>,
     onStoreDispatch = demo_onStoreDispatch,
     getRoomId = roomId,
     getRoomAlias = roomAlias\<rparr>"

text \<open>A GroupStore in which no group has a room, and one with a group of two rooms.\<close>

definition no_group_rooms :: "jsval \<Rightarrow> jsval list" where
  "no_group_rooms g = []"

definition demo_group_rooms :: "jsval \<Rightarrow> jsval list" where
  "demo_group_rooms g =
     (if g = JStr ''+team:example.org'' then [JStr ''!a:example.org'', JStr ''!b:example.org'']
      else [])"

definition grid_payload :: payload where
  "grid_payload = [(''action'', JStr ''view_group_grid''), (''group_id'', JStr ''+team:example.org'')]"

definition room_payload :: "string \<Rightarrow> payload" where
  "room_payload r = [(''action'', JStr ''view_room''), (''room_id'', JStr r)]"

definition alias_payload :: payload where
  "alias_payload = [(''action'', JStr ''view_room''), (''room_alias'', JStr ''#lobby:example.org'')]"

subsection \<open>Concrete invite results\<close>

text \<open>A translation function that returns the message key as it is.\<close>

definition plain_t :: "string \<Rightarrow> (string \<times> string) list \<Rightarrow> string" where
  "plain_t key vars = key"

definition demo_error_text :: "string \<Rightarrow> string" where
  "demo_error_text addr = ''no such user: '' @ addr"

definition demo_fatal_inviter :: inviter where
  "demo_fatal_inviter = \<lparr>fatal = True, getErrorText = demo_error_text\<rparr>"

definition demo_inviter :: inviter where
  "demo_inviter = \<lparr>fatal = False, getErrorText = demo_error_text\<rparr>"

definition demo_room :: room where
  "demo_room = \<lparr>name = ''Lobby''\<rparr>"

definition demo_addrs :: addr_states where
  "demo_addrs = [(''@alice:example.org'', ''invited''), (''@bob:example.org'', ''error'')]"

definition demo_addrs2 :: addr_states where
  "demo_addrs2 = [(''@alice:example.org'', ''invited''), (''@bob:example.org'', ''error''),
     (''carol@example.org'', ''invited''), (''dan@example.org'', ''error'')]"

section \<open>Properties of the failure report\<close>

lemma map_of_distinct_eq:
  "distinct (map fst xs) \<Longrightarrow> (a, s) \<in> set xs \<Longrightarrow> map_of xs a = Some s"
  by simp

lemma failedUsers_spec:
  assumes "distinct (map fst addrs)"
  shows "failedUsers addrs = map fst (filter (\<lambda>(a, s). s = ''error'') addrs)"
proof -
  have "\<And>x. x \<in> set addrs \<Longrightarrow>
      (map_of addrs (fst x) = Some ''error'') = (snd x = ''error'')"
    using assms by (metis map_of_distinct_eq option.inject prod.collapse)
  then have "filter ((\<lambda>a. map_of addrs a = Some ''error'') \<circ> fst) addrs
      = filter (\<lambda>(a, s). s = ''error'') addrs"
    by (intro filter_cong) (auto simp: case_prod_beta)
  then show ?thesis
    by (simp add: failedUsers_def filter_map)
qed

lemma errorList_loop_all:
  "\<forall>a \<in> set as. map_of addrs a = Some ''error'' \<Longrightarrow>
   errorList_loop mi addrs as acc = acc @ map (\<lambda>a. a @ '': '' @ getErrorText mi a) as"
  by (induction as arbitrary: acc) simp_all

lemma errorList_failedUsers:
  "errorList_loop mi addrs (failedUsers addrs) []
     = map (\<lambda>a. a @ '': '' @ getErrorText mi a) (failedUsers addrs)"
  using errorList_loop_all [of "failedUsers addrs" addrs mi "[]"]
  by (simp add: failedUsers_def)

lemma errorList_spec:
  assumes "distinct (map fst addrs)"
  shows "errorList_loop mi addrs (failedUsers addrs) [] = failure_lines mi addrs"
proof -
  have "errorList_loop mi addrs (failedUsers addrs) []
      = map (\<lambda>a. a @ '': '' @ getErrorText mi a)
          (map fst (filter (\<lambda>(a, s). s = ''error'') addrs))"
    using errorList_failedUsers [of mi addrs] by (simp only: failedUsers_spec [OF assms])
  also have "\<dots> = failure_lines mi addrs"
    by (simp add: failure_lines_def case_prod_beta comp_def)
  finally show ?thesis .
qed

lemma failedUsers_single:
  assumes "distinct (map fst addrs)"
    and "filter (\<lambda>(a, s). s = ''error'') addrs = [(a, ''error'')]"
  shows "failedUsers addrs = [a]"
  using failedUsers_spec [OF assms(1)] assms(2) by simp

text \<open>
  What the function does when \<open>room\<close> is a Room object. With exactly one failed address
  and a fatal inviter, one dialog is created and its description is the error text of
  that address.
\<close>

lemma single_fatal_report_known_room:
  assumes "distinct (map fst addrs)"
    and "filter (\<lambda>(a, s). s = ''error'') addrs = [(a, ''error'')]"
    and "fatal mi"
  shows "showAnyInviteErrors t addrs (Some r) mi = Inr
    ([\<lparr>analyticsAction = ''Failed to invite users to the room'',
       analyticsInfo = [],
       component = ''dialogs.ErrorDialog'',
       title = t ''Failed to invite users to the room:'' [(''roomName'', name r)],
       description = getErrorText mi a\<rparr>], addrs)"
  using failedUsers_single [OF assms(1,2)] assms(3)
  by (simp add: showAnyInviteErrors_def)

text \<open>
  Outside of that case, with a Room object: no dialog when no address failed, and
  otherwise one dialog whose description joins one line per failed address.
\<close>

lemma failure_list_report_known_room:
  assumes "distinct (map fst addrs)"
    and "\<not> (length (filter (\<lambda>(a, s). s = ''error'') addrs) = 1 \<and> fatal mi)"
  shows "showAnyInviteErrors t addrs (Some r) mi = Inr
    ((if filter (\<lambda>(a, s). s = ''error'') addrs = [] then []
      else [\<lparr>analyticsAction = ''Failed to invite the following users to the room'',
        analyticsInfo = [],
        component = ''dialogs.ErrorDialog'',
        title = t ''Failed to invite the following users to the %(roomName)s room:''
                  [(''roomName'', name r)],
        description = join br_separator (failure_lines mi addrs)\<rparr>]), addrs)"
proof -
  have len: "length (failedUsers addrs) = length (filter (\<lambda>(a, s). s = ''error'') addrs)"
    by (simp add: failedUsers_spec [OF assms(1)])
  have lines: "errorList_loop mi addrs (failedUsers addrs) [] = failure_lines mi addrs"
    by (rule errorList_spec [OF assms(1)])
  have empty: "(length (failure_lines mi addrs) > 0)
      = (filter (\<lambda>(a, s). s = ''error'') addrs \<noteq> [])"
    by (simp add: failure_lines_def)
  show ?thesis
    using assms(2) empty
    by (auto simp: showAnyInviteErrors_def Let_def len lines)
qed

text \<open>With a Room object the function returns, and what it returns is \<open>addrs\<close>.\<close>

lemma returns_addrs_known_room:
  "\<exists>dialogs. showAnyInviteErrors t addrs (Some r) mi = Inr (dialogs, addrs)"
  by (simp add: showAnyInviteErrors_def Let_def)

text \<open>
  When \<open>room\<close> is \<open>null\<close> and a dialog is due, reading \<open>room.name\<close> for the title raises a
  TypeError: no dialog is created and nothing is returned.
\<close>

lemma null_room_raises:
  assumes "distinct (map fst addrs)"
    and "filter (\<lambda>(a, s). s = ''error'') addrs \<noteq> []"
  shows "showAnyInviteErrors t addrs None mi = Inl TypeError"
proof -
  have lines: "errorList_loop mi addrs (failedUsers addrs) [] = failure_lines mi addrs"
    by (rule errorList_spec [OF assms(1)])
  have "failure_lines mi addrs \<noteq> []"
    using assms(2) by (simp add: failure_lines_def)
  then show ?thesis
    by (simp add: showAnyInviteErrors_def Let_def lines)
qed

text \<open>
  C3. Exactly one address has the outcome error and the inviter is fatal, so one dialog
  with the error text of that address is due. The room is not known to the client
  (\<open>getRoom\<close> gave \<open>null\<close>): the function raises a TypeError and creates no dialog.
\<close>

theorem C3_single_fatal_null_room:
  "showAnyInviteErrors plain_t demo_addrs None demo_fatal_inviter = Inl TypeError"
  by (simp add: showAnyInviteErrors_def failedUsers_def demo_addrs_def
      demo_fatal_inviter_def)

text \<open>
  C4. Two addresses have the outcome error and the inviter is not fatal, so one dialog
  that lists both is due. With \<open>room\<close> \<open>null\<close> the function raises a TypeError after the
  list is built and creates no dialog.
\<close>

theorem C4_failure_list_null_room:
  "errorList_loop demo_inviter demo_addrs2 (failedUsers demo_addrs2) []
     = [''@bob:example.org: no such user: @bob:example.org'',
        ''dan@example.org: no such user: dan@example.org'']
   \<and> showAnyInviteErrors plain_t demo_addrs2 None demo_inviter = Inl TypeError"
  by (simp add: showAnyInviteErrors_def failedUsers_def demo_addrs2_def
      demo_inviter_def demo_error_text_def)

text \<open>
  C9. The function ends with \<open>return addrs\<close>, and with a Room object it returns \<open>addrs\<close>
  as it was passed. With \<open>room\<close> \<open>null\<close> and one failed address it raises a TypeError
  and returns nothing.
\<close>

theorem C9_null_room_returns_nothing:
  "showAnyInviteErrors plain_t demo_addrs (Some demo_room) demo_inviter
     = Inr ([\<lparr>analyticsAction = ''Failed to invite the following users to the room'',
              analyticsInfo = [],
              component = ''dialogs.ErrorDialog'',
              title = ''Failed to invite the following users to the %(roomName)s room:'',
              description = ''@bob:example.org: no such user: @bob:example.org''\<rparr>],
            demo_addrs)
   \<and> showAnyInviteErrors plain_t demo_addrs None demo_inviter = Inl TypeError"
  by (simp add: showAnyInviteErrors_def failedUsers_def demo_addrs_def demo_inviter_def
      demo_error_text_def plain_t_def br_separator_def)

section \<open>Properties of the router\<close>

lemma findIndex_from_range:
  "0 \<le> k \<Longrightarrow> findIndex_from P k xs \<noteq> - 1 \<Longrightarrow>
     k \<le> findIndex_from P k xs \<and> findIndex_from P k xs < k + int (length xs)
     \<and> P (xs ! nat (findIndex_from P k xs - k))"
proof (induction xs arbitrary: k)
  case Nil
  then show ?case by simp
next
  case (Cons x xs)
  show ?case
  proof (cases "P x")
    case True
    then show ?thesis by simp
  next
    case False
    with Cons.prems have ne: "findIndex_from P (k + 1) xs \<noteq> - 1" by simp
    have k1: "0 \<le> k + 1" using Cons.prems(1) by simp
    define r where "r = findIndex_from P (k + 1) xs"
    from Cons.IH [OF k1 ne] have ih: "k + 1 \<le> r" "r < k + 1 + int (length xs)"
      "P (xs ! nat (r - (k + 1)))" by (simp_all add: r_def)
    have "nat (r - k) = Suc (nat (r - (k + 1)))" using ih(1) by simp
    then have "P ((x # xs) ! nat (r - k))" using ih(3) by simp
    moreover have "findIndex_from P k (x # xs) = r" using False by (simp add: r_def)
    ultimately show ?thesis using ih(1,2) by simp
  qed
qed

lemma findIndex_range:
  "findIndex P xs \<noteq> - 1 \<Longrightarrow>
     0 \<le> findIndex P xs \<and> findIndex P xs < int (length xs) \<and> P (xs ! nat (findIndex P xs))"
  using findIndex_from_range [of 0 P xs] by (simp add: findIndex_def)

lemma findIndex_from_found:
  "x \<in> set xs \<Longrightarrow> P x \<Longrightarrow> 0 \<le> k \<Longrightarrow> findIndex_from P k xs \<noteq> - 1"
proof (induction xs arbitrary: k)
  case Nil
  then show ?case by simp
next
  case (Cons y ys)
  show ?case
  proof (cases "P y")
    case True
    then show ?thesis using Cons.prems by simp
  next
    case False
    then have "x \<in> set ys" using Cons.prems by auto
    from Cons.IH [OF this Cons.prems(2), of "k + 1"] Cons.prems(3) False
    show ?thesis by simp
  qed
qed

lemma getCurrentRoom_Some:
  "getCurrentRoom st = Some r \<longleftrightarrow>
     (\<exists>i. currentIndex st = Some i \<and> 0 \<le> i \<and> i < int (length (rooms st)) \<and> r = rooms st ! nat i)"
  by (auto simp: getCurrentRoom_def item_def split: option.splits)

lemma getCurrentRoom_None:
  "getCurrentRoom st = None \<longleftrightarrow>
     (case currentIndex st of None \<Rightarrow> True | Some i \<Rightarrow> \<not> (0 \<le> i \<and> i < int (length (rooms st))))"
  by (auto simp: getCurrentRoom_def item_def split: option.splits)

lemma forwardAction_frame:
  "currentIndex (forwardAction ops st p) = currentIndex st"
  "group_id (forwardAction ops st p) = group_id st"
  "forwardingEvent (forwardAction ops st p) = forwardingEvent st"
  "dispatchers (forwardAction ops st p) = dispatchers st"
  "length (rooms (forwardAction ops st p)) = length (rooms st)"
  by (simp_all add: forwardAction_def split: option.splits)

lemma forwardAction_dispatchers:
  "map dispatcher (rooms (forwardAction ops st p)) = map dispatcher (rooms st)"
  by (auto simp: forwardAction_def getCurrentRoom_Some map_update list_update_same_conv
      split: option.splits)


lemma router_inv_initial: "router_inv initialState"
  by (simp add: router_inv_def index_valid_or_empty_def closed_when_no_index_def initialState_def)

lemma router_inv_cleanupRooms: "router_inv (cleanupRooms st)"
  by (simp add: router_inv_def index_valid_or_empty_def closed_when_no_index_def
      cleanupRooms_def emitChange_def)

lemma router_inv_forwardAction: "router_inv st \<Longrightarrow> router_inv (forwardAction ops st p)"
  by (auto simp: router_inv_def index_valid_or_empty_def closed_when_no_index_def
      forwardAction_frame forwardAction_def split: option.splits)

lemma router_inv_createRoom: "router_inv (createRoom ops st)"
  by (simp add: router_inv_def index_valid_or_empty_def closed_when_no_index_def
      createRoom_def emitChange_def)

lemma router_inv_switch:
  assumes "router_inv st" and "hasRoom ops st p"
  shows "router_inv (emitChange (st\<lparr>currentIndex := Some (roomIndex ops st p)\<rparr>))"
  using findIndex_range [of "\<lambda>r. matchesRoom ops p (Some (store r))" "rooms st"] assms
  by (simp add: router_inv_def index_valid_or_empty_def closed_when_no_index_def
      emitChange_def hasRoom_def roomIndex_def)

lemma router_inv_resolveRoomAlias: "router_inv st \<Longrightarrow> router_inv (resolveRoomAlias st p)"
  by (simp add: router_inv_def index_valid_or_empty_def closed_when_no_index_def
      resolveRoomAlias_def split: option.splits)

lemma router_inv_effects_forwarding:
  "router_inv st \<Longrightarrow> router_inv (st\<lparr>effects := fx, forwardingEvent := ev\<rparr>)"
  "router_inv st \<Longrightarrow> router_inv (st\<lparr>forwardingEvent := ev\<rparr>)"
  "router_inv st \<Longrightarrow> router_inv (st\<lparr>effects := fx\<rparr>)"
  by (simp_all add: router_inv_def index_valid_or_empty_def closed_when_no_index_def
      split: option.splits)

lemma router_inv_view_room:
  assumes "router_inv st"
  shows "router_inv (view_room ops st p)"
proof -
  define st1 where "st1 = (if \<not> truthy (field p ''room_id'') \<and> truthy (field p ''room_alias'')
                 then resolveRoomAlias st p else st)"
  define st2 where "st2 = (if matchesRoom ops p (getCurrentRoomStore st1) then
                   (if hasRoom ops st1 p
                    then emitChange (st1\<lparr>currentIndex := Some (roomIndex ops st1 p)\<rparr>)
                    else cleanupRooms st1)
                 else st1)"
  define st3 where "st3 = (if getCurrentRoomStore st2 = None then createRoom ops st2 else st2)"
  define st4 where "st4 = forwardAction ops st3 p"
  have 1: "router_inv st1"
    using assms by (simp add: st1_def router_inv_resolveRoomAlias)
  have 2: "router_inv st2"
    using 1 by (simp add: st2_def router_inv_switch router_inv_cleanupRooms)
  have 3: "router_inv st3"
    using 2 by (simp add: st3_def router_inv_createRoom)
  have 4: "router_inv st4"
    using 3 by (simp add: st4_def router_inv_forwardAction)
  have "view_room ops st p =
      (if truthy (forwardingEvent st4) then
           st4\<lparr>effects := effects st4 @ [GlobalDispatch
                  [(''action'', JStr ''send_event''),
                   (''room_id'', field p ''room_id''),
                   (''event'', forwardingEvent st4)]],
               forwardingEvent := JNull\<rparr>
         else st4)"
    by (simp only: view_room_def Let_def st1_def st2_def st3_def st4_def)
  then show ?thesis
    using 4 by (simp add: router_inv_effects_forwarding)
qed

lemma roomStores_of_length: "length (fst (roomStores_of ops d rs)) = length rs"
  by (induction rs arbitrary: d) (simp_all add: case_prod_beta)

lemma router_inv_view_group_grid:
  "router_inv st \<Longrightarrow> router_inv (view_group_grid ops g st p)"
  by (auto simp: view_group_grid_def Let_def case_prod_beta setCurrentGroupRoom_def
      emitChange_def router_inv_def index_valid_or_empty_def closed_when_no_index_def
      roomStores_of_length [of ops _ "g (field p ''group_id'')", symmetric]
      simp del: length_0_conv
      split: option.splits)

lemma router_inv_onDispatch: "router_inv st \<Longrightarrow> router_inv (onDispatch ops g st p)"
  by (simp add: onDispatch_def router_inv_view_room router_inv_cleanupRooms
      router_inv_forwardAction router_inv_effects_forwarding router_inv_view_group_grid)

lemma router_inv_handle: "router_inv st \<Longrightarrow> router_inv (handle ops st ev)"
  by (cases ev)
    (simp_all add: router_inv_onDispatch resolveRoomAlias_resolved_def
      resolveRoomAlias_rejected_def router_inv_forwardAction router_inv_effects_forwarding)

lemma router_inv_run: "router_inv st \<Longrightarrow> router_inv (run ops st evs)"
  unfolding run_def
  by (induction evs arbitrary: st) (simp_all add: router_inv_handle)

text \<open>
  C1, as stated: in every state reached from the initial state, \<open>currentIndex\<close> is a
  valid index into \<open>rooms\<close> when it is not \<open>null\<close>. It fails after \<open>view_group_grid\<close> for a
  group without rooms: \<open>rooms\<close> is empty and \<open>currentIndex\<close> is 0.
\<close>

theorem C1_empty_group_counterexample:
  "currentIndex (run demo_stores initialState [Dispatched no_group_rooms grid_payload]) = Some 0
   \<and> rooms (run demo_stores initialState [Dispatched no_group_rooms grid_payload]) = []
   \<and> \<not> index_valid (run demo_stores initialState [Dispatched no_group_rooms grid_payload])"
  by (simp add: run_def onDispatch_def grid_payload_def field_def view_group_grid_def
      initialState_def cleanupRooms_def emitChange_def no_group_rooms_def
      setCurrentGroupRoom_def index_valid_def forwarded_actions_def)

text \<open>
  C1, amended: in every state reached from the initial state by dispatched actions and
  by the completions of alias lookups, \<open>currentIndex\<close>, when it is not \<open>null\<close>, is a valid
  index into \<open>rooms\<close>, or it is 0 and \<open>rooms\<close> is empty.
\<close>

theorem C1_index_valid_or_empty:
  "index_valid_or_empty (run ops initialState evs)"
  using router_inv_run [OF router_inv_initial, of ops evs]
  by (simp add: router_inv_def)

theorem C1_index_valid_or_empty_witness:
  "index_valid_or_empty (run demo_stores initialState
     [Dispatched demo_group_rooms grid_payload,
      Dispatched demo_group_rooms (room_payload ''!b:example.org'')])
   \<and> currentIndex (run demo_stores initialState
     [Dispatched demo_group_rooms grid_payload,
      Dispatched demo_group_rooms (room_payload ''!b:example.org'')]) = Some 0
   \<and> length (rooms (run demo_stores initialState
     [Dispatched demo_group_rooms grid_payload,
      Dispatched demo_group_rooms (room_payload ''!b:example.org'')])) = 2"
  using C1_index_valid_or_empty [of demo_stores
     "[Dispatched demo_group_rooms grid_payload,
       Dispatched demo_group_rooms (room_payload ''!b:example.org'')]"]
  by (simp add: run_def onDispatch_def grid_payload_def room_payload_def field_def
      view_group_grid_def view_room_def initialState_def cleanupRooms_def emitChange_def
      demo_group_rooms_def setCurrentGroupRoom_def forwarded_actions_def view_room_of_def
      demo_stores_def demo_onStoreDispatch_def getCurrentRoomStore_def getCurrentRoom_def
      item_def matchesRoom_def forwardAction_def Let_def)

text \<open>
  C2, as stated: \<open>group_id\<close> is \<open>null\<close> whenever a single room or no room is open, in
  particular after a \<open>view_room\<close> that leaves one new entry. It fails after
  \<open>view_group_grid\<close> for a group without rooms, where no room is open and \<open>group_id\<close> is
  set, and again when \<open>view_room\<close> follows: \<open>_createRoom\<close> sets \<open>rooms\<close> and \<open>currentIndex\<close>
  and leaves \<open>group_id\<close> as it is.
\<close>

theorem C2_group_id_kept_counterexample:
  "rooms (run demo_stores initialState [Dispatched no_group_rooms grid_payload]) = []
   \<and> group_id (run demo_stores initialState [Dispatched no_group_rooms grid_payload])
       = JStr ''+team:example.org''
   \<and> length (rooms (run demo_stores initialState
     [Dispatched no_group_rooms grid_payload,
      Dispatched no_group_rooms (room_payload ''!x:example.org'')])) = 1
   \<and> group_id (run demo_stores initialState
     [Dispatched no_group_rooms grid_payload,
      Dispatched no_group_rooms (room_payload ''!x:example.org'')]) = JStr ''+team:example.org''
   \<and> \<not> group_id_only_for_grid (run demo_stores initialState
     [Dispatched no_group_rooms grid_payload,
      Dispatched no_group_rooms (room_payload ''!x:example.org'')])"
  by (simp add: run_def onDispatch_def grid_payload_def room_payload_def field_def
      view_group_grid_def view_room_def initialState_def cleanupRooms_def emitChange_def
      no_group_rooms_def setCurrentGroupRoom_def forwarded_actions_def
      demo_stores_def demo_onStoreDispatch_def getCurrentRoomStore_def getCurrentRoom_def
      item_def matchesRoom_def forwardAction_def createRoom_def Let_def
      group_id_only_for_grid_def)

lemma group_id_forwardAction_cleanup:
  "group_id (cleanupRooms st) = JNull"
  by (simp add: cleanupRooms_def emitChange_def)

lemma group_id_view_room:
  "group_id (view_room ops st p) = group_id st \<or> group_id (view_room ops st p) = JNull"
  by (simp add: view_room_def Let_def forwardAction_frame createRoom_def emitChange_def
      cleanupRooms_def resolveRoomAlias_def)

lemma group_id_view_group_grid:
  "group_id (view_group_grid ops g st p) = field p ''group_id''"
  by (simp add: view_group_grid_def Let_def case_prod_beta setCurrentGroupRoom_def
      emitChange_def)

text \<open>
  C2, amended: in every state reached from the initial state, while \<open>currentIndex\<close> is
  \<open>null\<close> the router is closed: \<open>rooms\<close> is empty and \<open>group_id\<close> is \<open>null\<close>. And in any
  state, \<open>view_group_grid\<close> leaves \<open>group_id\<close> equal to the group id of its payload, and
  every other action leaves \<open>group_id\<close> as it was or resets it to \<open>null\<close>.
\<close>

theorem C2_group_id_closed_or_grid:
  "closed_when_no_index (run ops initialState evs)
   \<and> (if field p ''action'' = JStr ''view_group_grid''
      then group_id (onDispatch ops g st p) = field p ''group_id''
      else group_id (onDispatch ops g st p) = group_id st
           \<or> group_id (onDispatch ops g st p) = JNull)"
proof -
  have "closed_when_no_index (run ops initialState evs)"
    using router_inv_run [OF router_inv_initial, of ops evs]
    by (simp add: router_inv_def)
  moreover have "field p ''action'' = JStr ''view_group_grid'' \<Longrightarrow>
      group_id (onDispatch ops g st p) = field p ''group_id''"
    by (simp add: onDispatch_def group_id_view_group_grid forwarded_actions_def)
  moreover have "field p ''action'' \<noteq> JStr ''view_group_grid'' \<Longrightarrow>
      group_id (onDispatch ops g st p) = group_id st
      \<or> group_id (onDispatch ops g st p) = JNull"
    using group_id_view_room [of ops st p]
    by (simp add: onDispatch_def forwardAction_frame group_id_forwardAction_cleanup)
  ultimately show ?thesis by simp
qed

theorem C2_group_id_closed_or_grid_witness:
  "closed_when_no_index (run demo_stores initialState
     [Dispatched demo_group_rooms grid_payload,
      Dispatched demo_group_rooms [(''action'', JStr ''view_group'')]])
   \<and> group_id (run demo_stores initialState
     [Dispatched demo_group_rooms grid_payload,
      Dispatched demo_group_rooms [(''action'', JStr ''view_group'')]]) = JNull
   \<and> group_id (onDispatch demo_stores demo_group_rooms initialState grid_payload)
       = JStr ''+team:example.org''"
  using C2_group_id_closed_or_grid [of demo_stores
     "[Dispatched demo_group_rooms grid_payload,
       Dispatched demo_group_rooms [(''action'', JStr ''view_group'')]]"
     grid_payload demo_group_rooms initialState]
  by (simp add: run_def onDispatch_def grid_payload_def field_def
      view_group_grid_def initialState_def cleanupRooms_def emitChange_def
      demo_group_rooms_def setCurrentGroupRoom_def forwarded_actions_def view_room_of_def
      demo_stores_def demo_onStoreDispatch_def getCurrentRoom_def
      item_def forwardAction_def Let_def)

lemma roomStores_of_fst:
  "fst (roomStores_of ops d rs) =
     map (\<lambda>(k, r). \<lparr>store = onStoreDispatch ops (view_room_of r) (newRoomViewStore ops),
                     dispatcher = k\<rparr>) (zip [d ..< d + length rs] rs)"
proof (induction rs arbitrary: d)
  case Nil
  then show ?case by simp
next
  case (Cons r rs)
  have "[d ..< d + Suc (length rs)] = d # [Suc d ..< Suc d + length rs]"
    using upt_conv_Cons [of d "d + Suc (length rs)"] by simp
  then show ?case
    using Cons.IH [of "Suc d"] by (simp add: case_prod_beta del: upt_Suc)
qed

lemma roomStores_of_snd:
  "snd (roomStores_of ops d rs) =
     map (\<lambda>(k, r). Dispatch k (view_room_of r)) (zip [d ..< d + length rs] rs)"
proof (induction rs arbitrary: d)
  case Nil
  then show ?case by simp
next
  case (Cons r rs)
  have "[d ..< d + Suc (length rs)] = d # [Suc d ..< Suc d + length rs]"
    using upt_conv_Cons [of d "d + Suc (length rs)"] by simp
  then show ?case
    using Cons.IH [of "Suc d"] by (simp add: case_prod_beta del: upt_Suc)
qed

lemma roomStores_of_dispatchers:
  "map dispatcher (fst (roomStores_of ops d rs)) = [d ..< d + length rs]"
proof -
  have "map dispatcher (fst (roomStores_of ops d rs)) = map fst (zip [d ..< d + length rs] rs)"
    by (simp add: roomStores_of_fst case_prod_beta comp_def)
  then show ?thesis by simp
qed

lemma roomStores_of_stores:
  "map store (fst (roomStores_of ops d rs)) =
     map (\<lambda>r. onStoreDispatch ops (view_room_of r) (newRoomViewStore ops)) rs"
  by (induction rs arbitrary: d) (simp_all add: case_prod_beta)

text \<open>
  C5. A \<open>view_group_grid\<close> whose group id differs from the current \<open>group_id\<close> replaces
  \<open>rooms\<close> by one entry per room of the group, in the order of the group query. Every
  entry has a dispatcher created for it, and its store is a new store to which \<open>view_room\<close>
  with the room id was dispatched. \<open>group_id\<close> is the group id of the payload and
  \<open>currentIndex\<close> is 0. The entries that were there before are unregistered first.
\<close>

theorem C5_view_group_grid_replaces_rooms:
  assumes "field p ''action'' = JStr ''view_group_grid''"
    and "field p ''group_id'' \<noteq> group_id st"
  shows "map dispatcher (rooms (onDispatch ops g st p))
           = [dispatchers st ..< dispatchers st + length (g (field p ''group_id''))]
    \<and> map store (rooms (onDispatch ops g st p))
           = map (\<lambda>r. onStoreDispatch ops (view_room_of r) (newRoomViewStore ops))
               (g (field p ''group_id''))
    \<and> group_id (onDispatch ops g st p) = field p ''group_id''
    \<and> currentIndex (onDispatch ops g st p) = Some 0
    \<and> dispatchers (onDispatch ops g st p) = dispatchers st + length (g (field p ''group_id''))
    \<and> effects (onDispatch ops g st p)
           = effects st @ map (\<lambda>r. Unregister (dispatcher r)) (rooms st) @ [EmitChange]
             @ map (\<lambda>(k, r). Dispatch k (view_room_of r))
                 (zip [dispatchers st ..< dispatchers st + length (g (field p ''group_id''))]
                      (g (field p ''group_id'')))
             @ [EmitChange, EmitChange]"
proof -
  have eq: "onDispatch ops g st p = view_group_grid ops g st p"
    using assms(1) by (simp add: onDispatch_def forwarded_actions_def)
  show ?thesis
    unfolding eq using assms(2)
    by (simp add: view_group_grid_def Let_def case_prod_beta setCurrentGroupRoom_def
        emitChange_def cleanupRooms_def roomStores_of_dispatchers roomStores_of_stores
        roomStores_of_snd)
qed

theorem C5_view_group_grid_replaces_rooms_witness:
  "rooms (onDispatch demo_stores demo_group_rooms initialState grid_payload)
     = [\<lparr>store = \<lparr>roomId = JStr ''!a:example.org'', roomAlias = JUndefined\<rparr>, dispatcher = 0\<rparr>,
        \<lparr>store = \<lparr>roomId = JStr ''!b:example.org'', roomAlias = JUndefined\<rparr>, dispatcher = 1\<rparr>]
   \<and> group_id (onDispatch demo_stores demo_group_rooms initialState grid_payload)
     = JStr ''+team:example.org''
   \<and> currentIndex (onDispatch demo_stores demo_group_rooms initialState grid_payload) = Some 0"
proof -
  have h1: "field grid_payload ''action'' = JStr ''view_group_grid''"
    by (simp add: grid_payload_def field_def)
  have h2: "field grid_payload ''group_id'' \<noteq> group_id (initialState :: room_view open_rooms)"
    by (simp add: grid_payload_def field_def initialState_def)
  show ?thesis
    using C5_view_group_grid_replaces_rooms [OF h1 h2, of demo_stores demo_group_rooms]
    by (simp add: onDispatch_def grid_payload_def field_def view_group_grid_def
        initialState_def cleanupRooms_def emitChange_def demo_group_rooms_def
        setCurrentGroupRoom_def forwarded_actions_def view_room_of_def demo_stores_def
        demo_onStoreDispatch_def Let_def)
qed

text \<open>
  C7. After a \<open>view_group_grid\<close>, a second \<open>view_group_grid\<close> with the same group id
  changes nothing: the state after the second dispatch is the state after the first.
\<close>

theorem C7_view_group_grid_idempotent:
  assumes "field p1 ''action'' = JStr ''view_group_grid''"
    and "field p2 ''action'' = JStr ''view_group_grid''"
    and "field p2 ''group_id'' = field p1 ''group_id''"
  shows "onDispatch ops g2 (onDispatch ops g1 st p1) p2 = onDispatch ops g1 st p1"
proof -
  have "group_id (onDispatch ops g1 st p1) = field p1 ''group_id''"
    using assms(1) by (simp add: onDispatch_def group_id_view_group_grid forwarded_actions_def)
  then show ?thesis
    using assms(2,3) by (simp add: onDispatch_def view_group_grid_def forwarded_actions_def)
qed

theorem C7_view_group_grid_idempotent_witness:
  "onDispatch demo_stores no_group_rooms
     (onDispatch demo_stores demo_group_rooms initialState grid_payload) grid_payload
   = onDispatch demo_stores demo_group_rooms initialState grid_payload"
proof -
  have h1: "field grid_payload ''action'' = JStr ''view_group_grid''"
    by (simp add: grid_payload_def field_def)
  have h3: "field grid_payload ''group_id'' = field grid_payload ''group_id''"
    by simp
  show ?thesis
    by (rule C7_view_group_grid_idempotent [OF h1 h1 h3])
qed

lemma forwardAction_current:
  "(case getCurrentRoom st of
      None \<Rightarrow> forwardAction ops st q = st
    | Some currentRoom \<Rightarrow>
        effects (forwardAction ops st q) = effects st @ [Dispatch (dispatcher currentRoom) q])"
proof (cases "getCurrentRoom st")
  case None
  then show ?thesis by (simp add: forwardAction_def split: option.splits)
next
  case (Some r)
  then obtain i where "currentIndex st = Some i"
    by (auto simp: getCurrentRoom_Some)
  with Some show ?thesis by (simp add: forwardAction_def)
qed

lemma forwardAction_rooms:
  "(case currentIndex st of
      None \<Rightarrow> rooms (forwardAction ops st q) = rooms st
    | Some i \<Rightarrow>
        if 0 \<le> i \<and> i < int (length (rooms st)) then
          rooms (forwardAction ops st q)
            = (rooms st)[nat i := (rooms st ! nat i)
                \<lparr>store := onStoreDispatch ops q (store (rooms st ! nat i))\<rparr>]
        else rooms (forwardAction ops st q) = rooms st)"
  by (simp add: forwardAction_def getCurrentRoom_def item_def split: option.splits)

text \<open>
  C8. When the alias lookup is rejected, the action \<open>view_room_error\<close>, with \<open>room_id\<close>
  \<open>null\<close>, the alias of the payload and the error, is dispatched on the dispatcher of the
  current entry and on no other, or nowhere when there is no current entry.
  \<open>currentIndex\<close> and \<open>group_id\<close> stay as they were and \<open>rooms\<close> keeps the same entries in
  the same order: the only change is in the store that received the action.
\<close>

theorem C8_alias_rejected_frame:
  "currentIndex (resolveRoomAlias_rejected ops st p err) = currentIndex st
   \<and> group_id (resolveRoomAlias_rejected ops st p err) = group_id st
   \<and> forwardingEvent (resolveRoomAlias_rejected ops st p err) = forwardingEvent st
   \<and> dispatchers (resolveRoomAlias_rejected ops st p err) = dispatchers st
   \<and> map dispatcher (rooms (resolveRoomAlias_rejected ops st p err)) = map dispatcher (rooms st)
   \<and> (case getCurrentRoom st of
        None \<Rightarrow> resolveRoomAlias_rejected ops st p err = st
      | Some currentRoom \<Rightarrow>
          effects (resolveRoomAlias_rejected ops st p err)
            = effects st @ [Dispatch (dispatcher currentRoom)
                [(''action'', JStr ''view_room_error''),
                 (''room_id'', JNull),
                 (''room_alias'', field p ''room_alias''),
                 (''err'', err)]])
   \<and> (case currentIndex st of
        None \<Rightarrow> rooms (resolveRoomAlias_rejected ops st p err) = rooms st
      | Some i \<Rightarrow>
          if 0 \<le> i \<and> i < int (length (rooms st)) then
            rooms (resolveRoomAlias_rejected ops st p err)
              = (rooms st)[nat i := (rooms st ! nat i)
                  \<lparr>store := onStoreDispatch ops
                      [(''action'', JStr ''view_room_error''),
                       (''room_id'', JNull),
                       (''room_alias'', field p ''room_alias''),
                       (''err'', err)]
                      (store (rooms st ! nat i))\<rparr>]
          else rooms (resolveRoomAlias_rejected ops st p err) = rooms st)"
  unfolding resolveRoomAlias_rejected_def
  using forwardAction_current [where st = st and ops = ops and q = "[(''action'', JStr ''view_room_error''),
          (''room_id'', JNull), (''room_alias'', field p ''room_alias''), (''err'', err)]"]
    forwardAction_rooms [where st = st and ops = ops and q = "[(''action'', JStr ''view_room_error''),
          (''room_id'', JNull), (''room_alias'', field p ''room_alias''), (''err'', err)]"]
  by (simp add: forwardAction_frame forwardAction_dispatchers)

theorem C8_alias_rejected_frame_witness:
  "effects (resolveRoomAlias_rejected demo_stores
       (onDispatch demo_stores demo_group_rooms initialState grid_payload)
       alias_payload (JStr ''M_NOT_FOUND''))
     = effects (onDispatch demo_stores demo_group_rooms initialState grid_payload)
       @ [Dispatch 0 [(''action'', JStr ''view_room_error''),
                      (''room_id'', JNull),
                      (''room_alias'', JStr ''#lobby:example.org''),
                      (''err'', JStr ''M_NOT_FOUND'')]]
   \<and> currentIndex (resolveRoomAlias_rejected demo_stores
       (onDispatch demo_stores demo_group_rooms initialState grid_payload)
       alias_payload (JStr ''M_NOT_FOUND'')) = Some 0
   \<and> group_id (resolveRoomAlias_rejected demo_stores
       (onDispatch demo_stores demo_group_rooms initialState grid_payload)
       alias_payload (JStr ''M_NOT_FOUND'')) = JStr ''+team:example.org''
   \<and> map dispatcher (rooms (resolveRoomAlias_rejected demo_stores
       (onDispatch demo_stores demo_group_rooms initialState grid_payload)
       alias_payload (JStr ''M_NOT_FOUND''))) = [0, 1]"
proof -
  define st where "st = onDispatch demo_stores demo_group_rooms initialState grid_payload"
  have st: "st = \<lparr>rooms =
      [\<lparr>store = \<lparr>roomId = JStr ''!a:example.org'', roomAlias = JUndefined\<rparr>, dispatcher = 0\<rparr>,
       \<lparr>store = \<lparr>roomId = JStr ''!b:example.org'', roomAlias = JUndefined\<rparr>, dispatcher = 1\<rparr>],
      currentIndex = Some 0, group_id = JStr ''+team:example.org'',
      forwardingEvent = JNull, dispatchers = 2,
      effects = [EmitChange,
        Dispatch 0 [(''action'', JStr ''view_room''), (''room_id'', JStr ''!a:example.org'')],
        Dispatch 1 [(''action'', JStr ''view_room''), (''room_id'', JStr ''!b:example.org'')],
        EmitChange, EmitChange]\<rparr>"
    by (simp add: st_def onDispatch_def grid_payload_def field_def view_group_grid_def
        initialState_def cleanupRooms_def emitChange_def demo_group_rooms_def
        setCurrentGroupRoom_def forwarded_actions_def view_room_of_def demo_stores_def
        demo_onStoreDispatch_def Let_def)
  have cur: "getCurrentRoom st = Some
      \<lparr>store = \<lparr>roomId = JStr ''!a:example.org'', roomAlias = JUndefined\<rparr>, dispatcher = 0\<rparr>"
    by (simp add: st getCurrentRoom_def item_def)
  have al: "field alias_payload ''room_alias'' = JStr ''#lobby:example.org''"
    by (simp add: alias_payload_def field_def)
  show ?thesis
    using C8_alias_rejected_frame [of demo_stores st alias_payload "JStr ''M_NOT_FOUND''"]
    unfolding st_def [symmetric] cur al
    by (simp add: st)
qed

text \<open>
  C10. The read accessors never read outside of \<open>rooms\<close>: \<open>getRoomStores\<close> is the stores
  of the entries of \<open>rooms\<close>, in order, and \<open>getCurrentRoomStore\<close> is the store at
  \<open>currentIndex\<close> when that is an index into \<open>rooms\<close>, and nothing when \<open>currentIndex\<close> is
  \<open>null\<close> or is not less than the length of \<open>rooms\<close>.
\<close>

theorem C10_read_accessors:
  "getRoomStores st = map store (rooms st)
   \<and> length (getRoomStores st) = length (rooms st)
   \<and> getCurrentRoomStore st =
       (case currentIndex st of
          None \<Rightarrow> None
        | Some i \<Rightarrow> if 0 \<le> i \<and> i < int (length (rooms st))
                    then Some (store (rooms st ! nat i)) else None)"
  by (simp add: getRoomStores_def getCurrentRoomStore_def getCurrentRoom_def item_def
      split: option.splits)

text \<open>
  C6. When \<open>view_room\<close> matches the current room and an entry for that room is in
  \<open>rooms\<close>, \<open>currentIndex\<close> becomes the index of the first entry that matches, and the
  action is forwarded to that entry. \<open>rooms\<close> keeps the same entries in the same order,
  no dispatcher is created and nothing is unregistered; \<open>group_id\<close> stays as it was.
\<close>

theorem C6_view_room_current_only_switches:
  assumes "field p ''action'' = JStr ''view_room''"
    and "matchesRoom ops p (getCurrentRoomStore st)"
    and "hasRoom ops st p"
  shows "0 \<le> roomIndex ops st p \<and> roomIndex ops st p < int (length (rooms st))
    \<and> matchesRoom ops p (Some (store (rooms st ! nat (roomIndex ops st p))))
    \<and> currentIndex (onDispatch ops g st p) = Some (roomIndex ops st p)
    \<and> group_id (onDispatch ops g st p) = group_id st
    \<and> dispatchers (onDispatch ops g st p) = dispatchers st
    \<and> map dispatcher (rooms (onDispatch ops g st p)) = map dispatcher (rooms st)
    \<and> rooms (onDispatch ops g st p)
        = (rooms st)[nat (roomIndex ops st p) := (rooms st ! nat (roomIndex ops st p))
            \<lparr>store := onStoreDispatch ops p (store (rooms st ! nat (roomIndex ops st p)))\<rparr>]
    \<and> effects (onDispatch ops g st p)
        = effects st
          @ (if \<not> truthy (field p ''room_id'') \<and> truthy (field p ''room_alias'')
             then [GetRoomIdForAlias (field p ''room_alias'')] else [])
          @ [EmitChange, Dispatch (dispatcher (rooms st ! nat (roomIndex ops st p))) p]
          @ (if truthy (forwardingEvent st)
             then [GlobalDispatch [(''action'', JStr ''send_event''),
                                   (''room_id'', field p ''room_id''),
                                   (''event'', forwardingEvent st)]]
             else [])"
proof -
  define i where "i = roomIndex ops st p"
  define fx1 where "fx1 = (if \<not> truthy (field p ''room_id'') \<and> truthy (field p ''room_alias'')
             then [GetRoomIdForAlias (field p ''room_alias'')] else [])"
  define st1 where "st1 = st\<lparr>effects := effects st @ fx1\<rparr>"
  have r1: "(if \<not> truthy (field p ''room_id'') \<and> truthy (field p ''room_alias'')
             then resolveRoomAlias st p else st) = st1"
    by (simp add: st1_def fx1_def resolveRoomAlias_def)
  have idx: "0 \<le> i" "i < int (length (rooms st))"
    "matchesRoom ops p (Some (store (rooms st ! nat i)))"
    using findIndex_range [of "\<lambda>r. matchesRoom ops p (Some (store r))" "rooms st"] assms(3)
    by (simp_all add: hasRoom_def roomIndex_def i_def)
  have cs1: "getCurrentRoomStore st1 = getCurrentRoomStore st"
    by (simp add: st1_def getCurrentRoomStore_def getCurrentRoom_def
        cong: option.case_cong if_cong)
  have ri1: "roomIndex ops st1 p = i"
    by (simp add: st1_def roomIndex_def i_def)
  have hr1: "hasRoom ops st1 p"
    using assms(3) by (simp add: hasRoom_def ri1 i_def)
  define st2 where "st2 = emitChange (st1\<lparr>currentIndex := Some i\<rparr>)"
  have cur2: "getCurrentRoom st2 = Some (rooms st ! nat i)"
    using idx(1,2) by (simp add: st2_def st1_def emitChange_def getCurrentRoom_def item_def)
  then have cs2: "getCurrentRoomStore st2 = Some (store (rooms st ! nat i))"
    by (simp add: getCurrentRoomStore_def)
  define st4 where "st4 = forwardAction ops st2 p"
  have vr: "view_room ops st p =
      (if truthy (forwardingEvent st4) then
           st4\<lparr>effects := effects st4 @ [GlobalDispatch
                  [(''action'', JStr ''send_event''),
                   (''room_id'', field p ''room_id''),
                   (''event'', forwardingEvent st4)]],
               forwardingEvent := JNull\<rparr>
         else st4)"
    unfolding view_room_def Let_def r1 cs1 ri1
    using assms(2) hr1 by (simp add: st2_def [symmetric] cs2 st4_def [symmetric])
  have f4: "currentIndex st4 = Some i" "group_id st4 = group_id st"
    "dispatchers st4 = dispatchers st" "forwardingEvent st4 = forwardingEvent st"
    by (simp_all add: st4_def forwardAction_frame st2_def st1_def emitChange_def)
  have r4: "rooms st4 = (rooms st)[nat i := (rooms st ! nat i)
            \<lparr>store := onStoreDispatch ops p (store (rooms st ! nat i))\<rparr>]"
    using cur2 by (simp add: st4_def forwardAction_def st2_def st1_def emitChange_def)
  have e4: "effects st4 = effects st @ fx1 @ [EmitChange, Dispatch (dispatcher (rooms st ! nat i)) p]"
    using cur2 by (simp add: st4_def forwardAction_def st2_def st1_def emitChange_def)
  have d4: "map dispatcher (rooms st4) = map dispatcher (rooms st)"
    by (simp add: st4_def forwardAction_dispatchers st2_def st1_def emitChange_def)
  have od: "onDispatch ops g st p = view_room ops st p"
    using assms(1) by (simp add: onDispatch_def)
  show ?thesis
    unfolding od vr i_def [symmetric]
    using idx f4 r4 e4 d4 by (simp add: fx1_def)
qed

lemmas demo_run_defs =
  run_def onDispatch_def grid_payload_def room_payload_def field_def
  view_group_grid_def view_room_def initialState_def cleanupRooms_def emitChange_def
  demo_group_rooms_def setCurrentGroupRoom_def forwarded_actions_def view_room_of_def
  demo_stores_def demo_onStoreDispatch_def getCurrentRoomStore_def getCurrentRoom_def
  item_def matchesRoom_def forwardAction_def Let_def

theorem C6_view_room_current_only_switches_witness:
  "currentIndex (onDispatch demo_stores demo_group_rooms
       (onDispatch demo_stores demo_group_rooms initialState grid_payload)
       (room_payload ''!a:example.org'')) = Some 0
   \<and> map dispatcher (rooms (onDispatch demo_stores demo_group_rooms
       (onDispatch demo_stores demo_group_rooms initialState grid_payload)
       (room_payload ''!a:example.org''))) = [0, 1]
   \<and> group_id (onDispatch demo_stores demo_group_rooms
       (onDispatch demo_stores demo_group_rooms initialState grid_payload)
       (room_payload ''!a:example.org'')) = JStr ''+team:example.org''"
proof -
  define st where "st = onDispatch demo_stores demo_group_rooms initialState grid_payload"
  have st: "st = \<lparr>rooms =
      [\<lparr>store = \<lparr>roomId = JStr ''!a:example.org'', roomAlias = JUndefined\<rparr>, dispatcher = 0\<rparr>,
       \<lparr>store = \<lparr>roomId = JStr ''!b:example.org'', roomAlias = JUndefined\<rparr>, dispatcher = 1\<rparr>],
      currentIndex = Some 0, group_id = JStr ''+team:example.org'',
      forwardingEvent = JNull, dispatchers = 2,
      effects = [EmitChange,
        Dispatch 0 [(''action'', JStr ''view_room''), (''room_id'', JStr ''!a:example.org'')],
        Dispatch 1 [(''action'', JStr ''view_room''), (''room_id'', JStr ''!b:example.org'')],
        EmitChange, EmitChange]\<rparr>"
    by (simp add: st_def demo_run_defs)
  have h1: "field (room_payload ''!a:example.org'') ''action'' = JStr ''view_room''"
    by (simp add: room_payload_def field_def)
  have h2: "matchesRoom demo_stores (room_payload ''!a:example.org'') (getCurrentRoomStore st)"
    by (simp add: st demo_run_defs)
  have ri: "roomIndex demo_stores st (room_payload ''!a:example.org'') = 0"
    by (simp add: st roomIndex_def findIndex_def demo_run_defs)
  have h3: "hasRoom demo_stores st (room_payload ''!a:example.org'')"
    by (simp add: hasRoom_def ri)
  show ?thesis
    using C6_view_room_current_only_switches [OF h1 h2 h3, of demo_group_rooms]
    unfolding st_def [symmetric] ri
    by (simp add: st)
qed

end
